theory Spec2Isabelle
  imports Main "HOL-Library.Word" "HOL-Library.Sublist"
begin

section \<open>WAMP-over-RawSocket transport (autobahn/twisted/rawsocket.py)\<close>

text \<open>
  The module binds a length-prefixed byte stream to a WAMP session. Its collaborators
  are objects of other modules: the session (\<open>onOpen\<close>, \<open>onMessage\<close>, \<open>onClose\<close>),
  the serializer (\<open>serialize\<close>, \<open>unserialize\<close>) and Twisted's transport
  (\<open>getPeer\<close>, \<open>write\<close>, \<open>loseConnection\<close>, \<open>abortConnection\<close>). They are
  modelled as values that say how each call ends (it returns, or it raises), and every call
  the protocol makes on them is recorded, in order, as an event. A method of the protocol
  is a function from the protocol object to its outcome (\<open>Inl\<close> the exception raised,
  \<open>Inr\<close> the value returned), the events it caused and the protocol object afterwards.
\<close>

text \<open>
  Three things are taken from the environment as it is documented. The transport's
  methods return at once: \<open>loseConnection\<close> and \<open>abortConnection\<close> ask for the
  disconnection, and the reactor calls \<open>connectionLost\<close> later, as a call of its own.
  A session callback is described by its outcome and its effect on the session's own state;
  calls it makes back on the transport interface are calls of their own in a sequence of
  calls. Rendering a value into a log line (\<open>str.format\<close>, \<open>hexlify\<close>) returns and
  has no effect; a log line is recorded with its format string and its argument.
\<close>

subsection \<open>Exceptions, bytes, collaborators\<close>

type_synonym bytes = "8 word list"

text \<open>
  Instances of Python's \<open>Exception\<close>: the ones the module raises itself, the ones the
  interpreter raises on a missing attribute or a call that does not fit, and any other,
  each with its message. All of them are caught by \<open>except Exception\<close>;
  \<open>ProtocolError\<close> is the one \<open>stringReceived\<close> names in a handler of its own.
\<close>

datatype exn =
    AttributeError string
  | TypeError string
  | AssertionError
  | ProtocolError string
  | SerializationError string
  | TransportLost
  | OtherException string

fun str_exn :: "exn \<Rightarrow> string" where
  "str_exn (AttributeError s) = s"
| "str_exn (TypeError s) = s"
| "str_exn AssertionError = []"
| "str_exn (ProtocolError s) = s"
| "str_exn (SerializationError s) = s"
| "str_exn TransportLost = []"
| "str_exn (OtherException s) = s"

text \<open>
  The value wrapped by the \<open>reason\<close> that Twisted hands to \<open>connectionLost\<close>:
  \<open>ConnectionDone\<close>, a class derived from it, or anything else.
\<close>

datatype reason_value =
    ConnectionDone
  | ConnectionDoneSubclass string
  | ConnectionLostError
  | ConnectionAborted
  | OtherReason string

datatype failure = Failure (failure_value: reason_value)

fun isinstance_ConnectionDone :: "reason_value \<Rightarrow> bool" where
  "isinstance_ConnectionDone ConnectionDone = True"
| "isinstance_ConnectionDone (ConnectionDoneSubclass _) = True"
| "isinstance_ConnectionDone _ = False"

text \<open>
  An attribute of a Python object: never assigned, holding \<open>None\<close>, or holding an
  object. Reading an attribute that was never assigned raises \<open>AttributeError\<close>.
\<close>

datatype 'a attr = Unset | PyNone | Obj 'a

text \<open>
  The session object: what each callback does to the session's own state, and whether it
  raises (\<open>Some e\<close>) or returns (\<open>None\<close>).
\<close>

record ('msg, 's) session =
  onOpen :: "'s \<Rightarrow> exn option \<times> 's"
  onMessage :: "'msg \<Rightarrow> 's \<Rightarrow> exn option \<times> 's"
  onClose :: "bool \<Rightarrow> 's \<Rightarrow> exn option \<times> 's"
  sstate :: 's

text \<open>
  The serializer. \<open>unserialize\<close> gives the messages it yields and, when decoding
  fails, the exception raised after them (at once when it yields none before).
\<close>

record 'msg serializer =
  serialize :: "'msg \<Rightarrow> exn + (bytes \<times> bool)"
  unserialize :: "bytes \<Rightarrow> 'msg list \<times> exn option"

text \<open>
  The transport: the peer address \<open>getPeer\<close> returns (\<open>None\<close> when the transport
  has no \<open>getPeer\<close>, as process transports), and whether it has \<open>abortConnection\<close>.
\<close>

record transport =
  getPeer :: "string option"
  has_abortConnection :: bool

text \<open>
  The value given to the factory as session constructor: not callable at all, or callable
  with a number of required arguments and the outcome of a call that fits.
\<close>

datatype 'a pyobj = NotCallable | Callable nat "exn + 'a"

fun callable :: "'a pyobj \<Rightarrow> bool" where
  "callable NotCallable = False"
| "callable (Callable _ _) = True"

fun call0 :: "'a pyobj \<Rightarrow> exn + 'a" where
  "call0 NotCallable = Inl (TypeError ''object is not callable'')"
| "call0 (Callable n r) = (if n = 0 then r else Inl (TypeError ''missing required arguments''))"

subsection \<open>Events\<close>

datatype 'msg log_arg =
    NoArg
  | ArgExn exn
  | ArgMsg 'msg
  | ArgHex bytes
  | ArgReason failure

datatype 'msg event =
    Log string "'msg log_arg"
  | GetPeer
  | CallFactory
  | OnOpen
  | OnMessage 'msg
  | OnClose bool
  | Write bytes
  | AbortConnection
  | LoseConnection

fun is_Log :: "'msg event \<Rightarrow> bool" where
  "is_Log (Log _ _) = True"
| "is_Log _ = False"

text \<open>The calls made on the session and on the transport: the events that are not log lines.\<close>

definition calls :: "'msg event list \<Rightarrow> 'msg event list" where
  "calls evs = filter (\<lambda>e. \<not> is_Log e) evs"

text \<open>The messages handed to \<open>onMessage\<close>, in order.\<close>

fun forwarded :: "'msg event list \<Rightarrow> 'msg list" where
  "forwarded [] = []"
| "forwarded (OnMessage m # evs) = m # forwarded evs"
| "forwarded (_ # evs) = forwarded evs"

text \<open>\<open>if self.factory.debug: log.msg(fmt.format(arg))\<close>\<close>

definition log_msg :: "bool \<Rightarrow> string \<Rightarrow> 'msg log_arg \<Rightarrow> 'msg event list" where
  "log_msg d fmt a = (if d then [Log fmt a] else [])"

subsection \<open>Frame Codec\<close>

text \<open>
  Twisted's \<open>Int32StringReceiver\<close>, the base class of the protocol, cuts the byte
  stream into payloads (\<open>dataReceived\<close>) and frames the payloads sent
  (\<open>sendString\<close>). It is not among the sources; the definitions of this subsection
  follow the spec's Frame Codec instead.
\<close>

text \<open>
  Modelled from the spec: the length field of a frame, missing with \<open>Int32StringReceiver\<close>:
  4 bytes, big-endian, unsigned.
\<close>

definition be32 :: "nat \<Rightarrow> bytes" where
  "be32 n = [of_nat (n div 2 ^ 24), of_nat (n div 2 ^ 16), of_nat (n div 2 ^ 8), of_nat n]"

text \<open>
  Modelled from the spec: reading the length field back (missing with
  \<open>Int32StringReceiver\<close>); only a 4-byte field has a value.
\<close>

fun be32_decode :: "bytes \<Rightarrow> nat" where
  "be32_decode [a, b, c, d] = unat a * 2 ^ 24 + unat b * 2 ^ 16 + unat c * 2 ^ 8 + unat d"
| "be32_decode _ = 0"

text \<open>
  Modelled from the spec: \<open>encode\<close> of the Frame Codec, missing with
  \<open>Int32StringReceiver\<close>: it prepends the 4-byte big-endian length of the payload.
\<close>

definition encode :: "bytes \<Rightarrow> bytes" where
  "encode payload = be32 (length payload) @ payload"

text \<open>
  Modelled from the spec: the complete payloads at the head of a buffer, in order, and the
  incomplete rest, which is kept (\<open>dataReceived\<close> of \<open>Int32StringReceiver\<close> is
  missing). No length is refused: a frame whose payload has not arrived in full is waited for.
\<close>

function deframe :: "bytes \<Rightarrow> bytes list \<times> bytes" where
  "deframe buf =
     (if length buf < 4 then ([], buf)
      else let n = be32_decode (take 4 buf) in
        if length buf < 4 + n then ([], buf)
        else case deframe (drop (4 + n) buf) of
          (ps, rest) \<Rightarrow> (take n (drop 4 buf) # ps, rest))"
  by pat_completeness auto
termination
  by (relation "measure length") auto

declare deframe.simps [simp del]

text \<open>
  Modelled from the spec: \<open>feed\<close> of the Frame Codec (\<open>dataReceived\<close> of
  \<open>Int32StringReceiver\<close> is missing): the bytes read are added to the buffer and the
  complete payloads taken from it.
\<close>

definition feed :: "bytes \<Rightarrow> bytes \<Rightarrow> bytes list \<times> bytes" where
  "feed buf data = deframe (buf @ data)"

text \<open>
  Modelled from the spec: successive reads through \<open>feed\<close>: the payloads of all of
  them, and the buffer after the last.
\<close>

fun feed_all :: "bytes \<Rightarrow> bytes list \<Rightarrow> bytes list \<times> bytes" where
  "feed_all buf [] = ([], buf)"
| "feed_all buf (data # later) =
     (case feed buf data of
        (ps, buf') \<Rightarrow> (case feed_all buf' later of (qs, buf'') \<Rightarrow> (ps @ qs, buf'')))"

text \<open>
  Modelled from the spec: \<open>sendString\<close> of \<open>Int32StringReceiver\<close>, missing: the
  payload is framed by \<open>encode\<close> and written to the transport.
\<close>

definition sendString :: "bytes \<Rightarrow> 'msg event list" where
  "sendString payload = [Write (encode payload)]"

subsection \<open>WampRawSocketFactory\<close>

record ('msg, 's) WampRawSocketFactory =
  f_factory :: "('msg, 's) session pyobj"
  f_serializer :: "'msg serializer"
  debug :: bool

text \<open>\<open>__init__\<close>: \<open>assert(callable(factory))\<close>, then the three assignments.\<close>

definition WampRawSocketFactory_init ::
  "('msg, 's) session pyobj \<Rightarrow> 'msg serializer \<Rightarrow> bool \<Rightarrow> exn + ('msg, 's) WampRawSocketFactory" where
  "WampRawSocketFactory_init fac ser dbg =
     (if callable fac then Inr \<lparr>f_factory = fac, f_serializer = ser, debug = dbg\<rparr>
      else Inl AssertionError)"

subsection \<open>WampRawSocketProtocol\<close>

record ('msg, 's) WampRawSocketProtocol =
  factory :: "('msg, 's) WampRawSocketFactory"
  transport :: transport
  peer :: "string attr"
  session :: "('msg, 's) session attr"

type_synonym ('a, 'msg, 's) outcome =
  "(exn + 'a) \<times> 'msg event list \<times> ('msg, 's) WampRawSocketProtocol"

text \<open>
  A protocol object as Twisted's \<open>Factory.buildProtocol\<close> hands it to the reactor: the
  class has no constructor of its own, so \<open>peer\<close> and \<open>_session\<close> are not assigned yet.
\<close>

definition buildProtocol ::
  "('msg, 's) WampRawSocketFactory \<Rightarrow> transport \<Rightarrow> ('msg, 's) WampRawSocketProtocol" where
  "buildProtocol f t = \<lparr>factory = f, transport = t, peer = Unset, session = Unset\<rparr>"

text \<open>\<open>isOpen\<close>: \<open>return self._session is not None\<close>\<close>

definition isOpen :: "('msg, 's) WampRawSocketProtocol \<Rightarrow> exn + bool" where
  "isOpen p =
     (case session p of
        Unset \<Rightarrow> Inl (AttributeError ''_session'')
      | PyNone \<Rightarrow> Inr False
      | Obj _ \<Rightarrow> Inr True)"

definition close :: "('msg, 's) WampRawSocketProtocol \<Rightarrow> (unit, 'msg, 's) outcome" where
  "close p =
     (case isOpen p of
        Inl e \<Rightarrow> (Inl e, [], p)
      | Inr True \<Rightarrow> (Inr (), [LoseConnection], p)
      | Inr False \<Rightarrow> (Inl TransportLost, [], p))"

definition abort :: "('msg, 's) WampRawSocketProtocol \<Rightarrow> (unit, 'msg, 's) outcome" where
  "abort p =
     (case isOpen p of
        Inl e \<Rightarrow> (Inl e, [], p)
      | Inr True \<Rightarrow>
          (if has_abortConnection (transport p) then (Inr (), [AbortConnection], p)
           else (Inr (), [LoseConnection], p))
      | Inr False \<Rightarrow> (Inl TransportLost, [], p))"

definition send :: "('msg, 's) WampRawSocketProtocol \<Rightarrow> 'msg \<Rightarrow> (unit, 'msg, 's) outcome" where
  "send p msg =
     (case isOpen p of
        Inl e \<Rightarrow> (Inl e, [], p)
      | Inr True \<Rightarrow>
          (let tx = log_msg (debug (factory p)) ''TX WAMP message: {0}'' (ArgMsg msg) in
           case serialize (f_serializer (factory p)) msg of
             Inl e \<Rightarrow>
               (Inl (SerializationError
                  (''Unable to serialize WAMP application payload ('' @ str_exn e @ '')'')),
                tx, p)
           | Inr (payload, _) \<Rightarrow>
               (Inr (),
                tx @ sendString payload
                   @ log_msg (debug (factory p)) ''TX octets: {0}'' (ArgHex payload),
                p))
      | Inr False \<Rightarrow> (Inl TransportLost, [], p))"

text \<open>
  The body of the \<open>for\<close> loop of \<open>stringReceived\<close>, over the messages that
  \<open>unserialize\<close> yields; \<open>err\<close> is the exception it raises after them, if any.
  The result is the exception that leaves the loop, if any.
\<close>

fun for_msg ::
  "('msg, 's) WampRawSocketProtocol \<Rightarrow> 'msg list \<Rightarrow> exn option \<Rightarrow>
   exn option \<times> 'msg event list \<times> ('msg, 's) WampRawSocketProtocol" where
  "for_msg p [] err = (err, [], p)"
| "for_msg p (m # ms) err =
     (let rx = log_msg (debug (factory p)) ''RX WAMP message: {0}'' (ArgMsg m) in
      case session p of
        Unset \<Rightarrow> (Some (AttributeError ''_session''), rx, p)
      | PyNone \<Rightarrow> (Some (AttributeError ''onMessage''), rx, p)
      | Obj s \<Rightarrow>
          (case onMessage s m (sstate s) of
             (Some e, st) \<Rightarrow> (Some e, rx @ [OnMessage m], p\<lparr>session := Obj (s\<lparr>sstate := st\<rparr>)\<rparr>)
           | (None, st) \<Rightarrow>
               (case for_msg (p\<lparr>session := Obj (s\<lparr>sstate := st\<rparr>)\<rparr>) ms err of
                  (r, evs, p') \<Rightarrow> (r, rx @ [OnMessage m] @ evs, p'))))"

fun abort_log :: "bool \<Rightarrow> exn \<Rightarrow> 'msg event list" where
  "abort_log d (ProtocolError s) =
     log_msg d ''WAMP Protocol Error ({0}) - aborting connection'' (ArgExn (ProtocolError s))"
| "abort_log d e =
     log_msg d ''WAMP Internal Error ({0}) - aborting connection'' (ArgExn e)"

definition stringReceived ::
  "('msg, 's) WampRawSocketProtocol \<Rightarrow> bytes \<Rightarrow> (unit, 'msg, 's) outcome" where
  "stringReceived p payload =
     (let rx = log_msg (debug (factory p)) ''RX octets: {0}'' (ArgHex payload) in
      case unserialize (f_serializer (factory p)) payload of
        (msgs, err) \<Rightarrow>
          (case for_msg p msgs err of
             (None, evs, p') \<Rightarrow> (Inr (), rx @ evs, p')
           | (Some e, evs, p') \<Rightarrow>
               (case abort p' of
                  (r, aevs, p'') \<Rightarrow> (r, rx @ evs @ abort_log (debug (factory p)) e @ aevs, p''))))"

text \<open>
  \<open>connectionLost\<close>: the \<open>try\<close> block first (the exception it ends with, if any),
  then the handler, then \<open>self._session = None\<close>.
\<close>

definition connectionLost_try ::
  "('msg, 's) WampRawSocketProtocol \<Rightarrow> failure \<Rightarrow> exn option \<times> 'msg event list" where
  "connectionLost_try p reason =
     (let wasClean = isinstance_ConnectionDone (failure_value reason) in
      case session p of
        Unset \<Rightarrow> (Some (AttributeError ''_session''), [])
      | PyNone \<Rightarrow> (Some (AttributeError ''onClose''), [])
      | Obj s \<Rightarrow> (fst (onClose s wasClean (sstate s)), [OnClose wasClean]))"

definition connectionLost ::
  "('msg, 's) WampRawSocketProtocol \<Rightarrow> failure \<Rightarrow> (unit, 'msg, 's) outcome" where
  "connectionLost p reason =
     (let lost = log_msg (debug (factory p))
                   (''WAMP-over-RawSocket connection lost: reason = '' @ [CHR 0x27] @ ''{0}'' @ [CHR 0x27])
                   (ArgReason reason) in
      case connectionLost_try p reason of
        (None, evs) \<Rightarrow> (Inr (), lost @ evs, p\<lparr>session := PyNone\<rparr>)
      | (Some e, evs) \<Rightarrow>
          (Inr (),
           lost @ evs @ log_msg (debug (factory p)) ''ApplicationSession.onClose raised ({0})'' (ArgExn e),
           p\<lparr>session := PyNone\<rparr>))"

text \<open>
  \<open>connectionMade\<close>. \<open>peer2str\<close> (autobahn.twisted.util) is not among the sources
  and is a parameter. The second \<open>try\<close> block assigns \<open>self._session\<close> only when the
  constructor has returned; the handler logs and calls \<open>self.abort()\<close>, whose exception,
  if it raises one, leaves \<open>connectionMade\<close>.
\<close>

definition connectionMade ::
  "(string \<Rightarrow> string) \<Rightarrow> ('msg, 's) WampRawSocketProtocol \<Rightarrow> (unit, 'msg, 's) outcome" where
  "connectionMade peer2str p =
     (let d = debug (factory p);
          made = log_msg d ''WAMP-over-RawSocket connection made'' NoArg;
          p1 = (case getPeer (transport p) of
                  None \<Rightarrow> p\<lparr>peer := Obj ''?''\<rparr>
                | Some a \<Rightarrow> p\<lparr>peer := Obj (peer2str a)\<rparr>) in
      case call0 (f_factory (factory p1)) of
        Inl e \<Rightarrow>
          (case abort p1 of
             (r, aevs, p2) \<Rightarrow>
               (r,
                made @ [GetPeer, CallFactory]
                  @ log_msg d ''ApplicationSession constructor / onOpen raised ({0})'' (ArgExn e)
                  @ aevs,
                p2))
      | Inr s \<Rightarrow>
          (case onOpen s (sstate s) of
             (None, st) \<Rightarrow>
               (Inr (), made @ [GetPeer, CallFactory, OnOpen], p1\<lparr>session := Obj (s\<lparr>sstate := st\<rparr>)\<rparr>)
           | (Some e, st) \<Rightarrow>
               (case abort (p1\<lparr>session := Obj (s\<lparr>sstate := st\<rparr>)\<rparr>) of
                  (r, aevs, p2) \<Rightarrow>
                    (r,
                     made @ [GetPeer, CallFactory, OnOpen]
                       @ log_msg d ''ApplicationSession constructor / onOpen raised ({0})'' (ArgExn e)
                       @ aevs,
                     p2))))"

subsection \<open>Sequences of calls\<close>

text \<open>
  The reactor delivers payloads one after the other; an exception that leaves
  \<open>stringReceived\<close> ends the delivery.
\<close>

fun stringsReceived ::
  "('msg, 's) WampRawSocketProtocol \<Rightarrow> bytes list \<Rightarrow> (unit, 'msg, 's) outcome" where
  "stringsReceived p [] = (Inr (), [], p)"
| "stringsReceived p (payload # later) =
     (case stringReceived p payload of
        (Inl e, evs, p') \<Rightarrow> (Inl e, evs, p')
      | (Inr _, evs, p') \<Rightarrow>
          (case stringsReceived p' later of (r, evs', p'') \<Rightarrow> (r, evs @ evs', p'')))"

text \<open>
  The calls that reach a protocol object, from the reactor (\<open>connectionMade\<close>,
  \<open>connectionLost\<close>, \<open>stringReceived\<close>) and from the session or its owner (the
  transport interface), and what each returns.
\<close>

datatype 'msg call =
    ConnectionMade
  | ConnectionLost failure
  | StringReceived bytes
  | Send 'msg
  | IsOpen
  | Close
  | Abort

datatype retval = RNone | RBool bool

definition ret_none :: "(unit, 'msg, 's) outcome \<Rightarrow> (retval, 'msg, 's) outcome" where
  "ret_none out = (case out of (r, evs, p) \<Rightarrow> (map_sum id (\<lambda>_. RNone) r, evs, p))"

fun step ::
  "(string \<Rightarrow> string) \<Rightarrow> ('msg, 's) WampRawSocketProtocol \<Rightarrow> 'msg call \<Rightarrow> (retval, 'msg, 's) outcome" where
  "step peer2str p ConnectionMade = ret_none (connectionMade peer2str p)"
| "step peer2str p (ConnectionLost reason) = ret_none (connectionLost p reason)"
| "step peer2str p (StringReceived payload) = ret_none (stringReceived p payload)"
| "step peer2str p (Send msg) = ret_none (send p msg)"
| "step peer2str p IsOpen = (map_sum id RBool (isOpen p), [], p)"
| "step peer2str p Close = ret_none (close p)"
| "step peer2str p Abort = ret_none (abort p)"

text \<open>Each call ends before the next one starts; an exception goes to that call's caller.\<close>

fun run ::
  "(string \<Rightarrow> string) \<Rightarrow> ('msg, 's) WampRawSocketProtocol \<Rightarrow> 'msg call list \<Rightarrow>
   (exn + retval) list \<times> 'msg event list \<times> ('msg, 's) WampRawSocketProtocol" where
  "run peer2str p [] = ([], [], p)"
| "run peer2str p (c # cs) =
     (case step peer2str p c of
        (r, evs, p') \<Rightarrow>
          (case run peer2str p' cs of (rs, evs', p'') \<Rightarrow> (r # rs, evs @ evs', p'')))"

subsection \<open>Notions used to state the properties\<close>

text \<open>
  The session after it has taken the messages one by one, when no \<open>onMessage\<close> call
  raises; \<open>None\<close> when one of them does.
\<close>

fun deliver :: "('msg, 's) session \<Rightarrow> 'msg list \<Rightarrow> ('msg, 's) session option" where
  "deliver s [] = Some s"
| "deliver s (m # ms) =
     (case onMessage s m (sstate s) of
        (None, st) \<Rightarrow> deliver (s\<lparr>sstate := st\<rparr>) ms
      | (Some e, st) \<Rightarrow> None)"


text \<open>What \<open>abort\<close> asks of the transport of an open protocol.\<close>

definition abort_call :: "('msg, 's) WampRawSocketProtocol \<Rightarrow> 'msg event" where
  "abort_call p = (if has_abortConnection (transport p) then AbortConnection else LoseConnection)"

text \<open>The same protocol object, built by a factory with another \<open>debug\<close> flag.\<close>

definition with_debug ::
  "bool \<Rightarrow> ('msg, 's) WampRawSocketProtocol \<Rightarrow> ('msg, 's) WampRawSocketProtocol" where
  "with_debug d p = p\<lparr>factory := (factory p)\<lparr>debug := d\<rparr>\<rparr>"

text \<open>
  What can be observed of an outcome: the result, the calls made on the session and on the
  transport (the events without the log lines), and the protocol object up to the flag.
\<close>

definition observe ::
  "'r \<times> 'msg event list \<times> ('msg, 's) WampRawSocketProtocol \<Rightarrow>
   'r \<times> 'msg event list \<times> ('msg, 's) WampRawSocketProtocol" where
  "observe out = (case out of (r, evs, p) \<Rightarrow> (r, calls evs, with_debug False p))"

text \<open>The calls of the transport interface that must fail on a closed transport.\<close>

fun needs_open :: "'msg call \<Rightarrow> bool" where
  "needs_open (Send _) = True"
| "needs_open Close = True"
| "needs_open Abort = True"
| "needs_open _ = False"

subsection \<open>Example objects\<close>

text \<open>
  A session that counts its messages, refuses the empty message and objects to an unclean
  close; a serializer whose messages are the payloads themselves, which cannot decode the
  payload \<open>[0]\<close> and cannot encode the empty message.
\<close>

definition ex_session :: "(bytes, nat) session" where
  "ex_session =
     \<lparr>onOpen = (\<lambda>n. (None, n)),
      onMessage = (\<lambda>m n. (if m = [] then Some (OtherException ''empty message'') else None, Suc n)),
      onClose = (\<lambda>b n. (if b then None else Some (OtherException ''unclean''), n)),
      sstate = 0\<rparr>"

definition ex_refusing_session :: "(bytes, nat) session" where
  "ex_refusing_session = ex_session\<lparr>onOpen := (\<lambda>n. (Some (OtherException ''not welcome''), n))\<rparr>"

definition ex_serializer :: "bytes serializer" where
  "ex_serializer =
     \<lparr>serialize = (\<lambda>m. if m = [] then Inl (OtherException ''nothing to encode'') else Inr (m, True)),
      unserialize = (\<lambda>b. if b = [0] then ([], Some (ProtocolError ''bad payload'')) else ([b], None))\<rparr>"

definition ex_transport :: transport where
  "ex_transport = \<lparr>getPeer = Some ''127.0.0.1:9000'', has_abortConnection = True\<rparr>"

definition ex_factory :: "bool \<Rightarrow> (bytes, nat) WampRawSocketFactory" where
  "ex_factory d = \<lparr>f_factory = Callable 0 (Inr ex_session), f_serializer = ex_serializer, debug = d\<rparr>"

definition ex_open :: "bool \<Rightarrow> (bytes, nat) WampRawSocketProtocol" where
  "ex_open d =
     \<lparr>factory = ex_factory d, transport = ex_transport, peer = Obj ''127.0.0.1:9000'',
      session = Obj ex_session\<rparr>"

definition ex_closed :: "(bytes, nat) WampRawSocketProtocol" where
  "ex_closed = (ex_open False)\<lparr>session := PyNone\<rparr>"

lemmas ex_defs =
  ex_session_def ex_refusing_session_def ex_serializer_def ex_transport_def ex_factory_def
  ex_open_def ex_closed_def

section \<open>Properties\<close>

subsection \<open>Connection loss\<close>

text \<open>
  Claim C10. In \<open>connectionLost\<close> of a protocol with a bound session, the one call made
  on the session is \<open>onClose(wasClean)\<close>, and \<open>wasClean\<close> is true exactly when the
  value wrapped by the reason is \<open>ConnectionDone\<close> or of a class derived from it; every
  other reason gives \<open>wasClean = False\<close>.
\<close>

theorem connectionLost_wasClean:
  assumes "session p = Obj s"
  shows "calls (fst (snd (connectionLost p (Failure v))))
           = [OnClose (v = ConnectionDone \<or> (\<exists>n. v = ConnectionDoneSubclass n))]"
  using assms
  by (cases v; cases "fst (onClose s True (sstate s))"; cases "fst (onClose s False (sstate s))")
     (auto simp: connectionLost_def connectionLost_try_def calls_def log_msg_def Let_def)

theorem connectionLost_wasClean_witness:
  "calls (fst (snd (connectionLost (ex_open False) (Failure ConnectionAborted)))) = [OnClose False]
   \<and> calls (fst (snd (connectionLost (ex_open True) (Failure ConnectionDone)))) = [OnClose True]"
  using connectionLost_wasClean [of "ex_open False" ex_session ConnectionAborted]
        connectionLost_wasClean [of "ex_open True" ex_session ConnectionDone]
  by (simp add: ex_open_def)

text \<open>
  Claim C6. Whatever the session's \<open>onClose\<close> does, and whether a session is bound or
  not, \<open>connectionLost\<close> returns without raising and leaves \<open>_session\<close> set to
  \<open>None\<close>; it writes log lines only when \<open>debug\<close> is set (the line on the lost
  connection and, when the \<open>try\<close> block raised, the line on the exception).
\<close>

theorem connectionLost_completes:
  "fst (connectionLost p reason) = Inr () \<and>
   session (snd (snd (connectionLost p reason))) = PyNone \<and>
   length (filter is_Log (fst (snd (connectionLost p reason))))
     \<le> (if debug (factory p) then 2 else 0)"
  by (auto simp: connectionLost_def connectionLost_try_def log_msg_def Let_def
           split: prod.splits option.splits attr.splits)

text \<open>The example session raises in \<open>onClose(False)\<close>; teardown completes all the same.\<close>

theorem connectionLost_completes_witness:
  "fst (onClose ex_session False (sstate ex_session)) = Some (OtherException ''unclean'') \<and>
   fst (connectionLost (ex_open True) (Failure ConnectionAborted)) = Inr () \<and>
   session (snd (snd (connectionLost (ex_open True) (Failure ConnectionAborted)))) = PyNone"
  using connectionLost_completes [of "ex_open True" "Failure ConnectionAborted"]
  by (simp add: ex_defs)

lemma connectionLost_onClose_raises_example:
  "connectionLost (ex_open False) (Failure ConnectionAborted)
     = (Inr (), [OnClose False], (ex_open False)\<lparr>session := PyNone\<rparr>)"
  by (simp add: connectionLost_def connectionLost_try_def log_msg_def ex_defs)

subsection \<open>Sending\<close>



text \<open>
  Before \<open>connectionMade\<close> has assigned \<open>_session\<close>, \<open>isOpen\<close> itself raises, and
  so does \<open>send\<close>.
\<close>

lemma send_unset:
  "session p = Unset \<Longrightarrow> send p msg = (Inl (AttributeError ''_session''), [], p)"
  by (simp add: send_def isOpen_def)

subsection \<open>The factory's constructor\<close>

text \<open>
  Claim C9, as stated, fails: the constructor checks \<open>callable(factory)\<close> and nothing
  else, so a callable that needs an argument is accepted, and the call without arguments
  fails only when a connection is made.
\<close>

theorem factory_init_arity_counterexample:
  "call0 (Callable 1 (Inr ex_session)) = Inl (TypeError ''missing required arguments'') \<and>
   WampRawSocketFactory_init (Callable 1 (Inr ex_session)) ex_serializer False
     = Inr \<lparr>f_factory = Callable 1 (Inr ex_session), f_serializer = ex_serializer, debug = False\<rparr>"
  by (simp add: WampRawSocketFactory_init_def)

text \<open>
  Claim C9, amended. The factory's constructor raises \<open>AssertionError\<close> for a session
  constructor that is not callable and accepts every callable, whatever arguments it
  requires; for a callable that requires arguments, the failure comes with each connection:
  in \<open>connectionMade\<close> no session is bound and \<open>onOpen\<close> is not called.
\<close>

theorem factory_init_callable:
  "(\<not> callable fac \<longrightarrow> WampRawSocketFactory_init fac ser dbg = Inl AssertionError) \<and>
   (callable fac \<longrightarrow> WampRawSocketFactory_init fac ser dbg
        = Inr \<lparr>f_factory = fac, f_serializer = ser, debug = dbg\<rparr>) \<and>
   (fac = Callable (Suc n) r \<longrightarrow>
      (let out = connectionMade peer2str
                   (buildProtocol \<lparr>f_factory = fac, f_serializer = ser, debug = dbg\<rparr> t)
       in session (snd (snd out)) = Unset \<and> OnOpen \<notin> set (fst (snd out))))"
  by (auto simp: WampRawSocketFactory_init_def connectionMade_def buildProtocol_def Let_def
        abort_def isOpen_def log_msg_def split: option.splits)

theorem factory_init_callable_witness:
  "\<not> callable (NotCallable :: (bytes, nat) session pyobj) \<and>
   WampRawSocketFactory_init (NotCallable :: (bytes, nat) session pyobj) ex_serializer True = Inl AssertionError \<and>
   callable (Callable (Suc 1) (Inr ex_session)) \<and>
   WampRawSocketFactory_init (Callable (Suc 1) (Inr ex_session)) ex_serializer True
     = Inr \<lparr>f_factory = Callable (Suc 1) (Inr ex_session), f_serializer = ex_serializer, debug = True\<rparr> \<and>
   session (snd (snd (connectionMade id
      (buildProtocol \<lparr>f_factory = Callable (Suc 1) (Inr ex_session), f_serializer = ex_serializer, debug = True\<rparr>
         ex_transport)))) = Unset"
  using factory_init_callable [of "NotCallable :: (bytes, nat) session pyobj" ex_serializer True 1 "Inr ex_session" id ex_transport]
        factory_init_callable [of "Callable (Suc 1) (Inr ex_session)" ex_serializer True 1 "Inr ex_session" id ex_transport]
  by (simp add: Let_def)

subsection \<open>The closed state\<close>

text \<open>
  Claim C4, as stated, fails: \<open>close()\<close> and \<open>abort()\<close> only ask the transport to
  disconnect. The session stays bound until the reactor delivers \<open>connectionLost\<close>, so
  right after them \<open>isOpen()\<close> is still true, \<open>send\<close> still writes, and a second
  \<open>close()\<close> or \<open>abort()\<close> does not raise.
\<close>

theorem close_not_terminal_counterexample:
  "isOpen (snd (snd (close (ex_open False)))) = Inr True \<and>
   send (snd (snd (close (ex_open False)))) [7] = (Inr (), [Write (encode [7])], ex_open False) \<and>
   fst (close (snd (snd (close (ex_open False))))) = Inr () \<and>
   isOpen (snd (snd (abort (ex_open False)))) = Inr True \<and>
   fst (abort (snd (snd (abort (ex_open False))))) = Inr ()"
  by (simp add: close_def abort_def send_def isOpen_def log_msg_def sendString_def ex_defs)

lemma for_msg_closed:
  "session p = PyNone \<Longrightarrow> snd (snd (for_msg p ms err)) = p \<and> calls (fst (snd (for_msg p ms err))) = []"
  by (cases ms) (simp_all add: calls_def log_msg_def)

lemma closed_same: "session p = PyNone \<Longrightarrow> p\<lparr>session := PyNone\<rparr> = p"
  by (cases p) simp

lemma closed_step:
  assumes "session p = PyNone" "c \<noteq> ConnectionMade"
  shows "snd (snd (step peer2str p c)) = p"
    and "calls (fst (snd (step peer2str p c))) = []"
    and "needs_open c \<Longrightarrow> fst (step peer2str p c) = Inl TransportLost"
    and "c = IsOpen \<Longrightarrow> fst (step peer2str p c) = Inr (RBool False)"
proof -
  show "snd (snd (step peer2str p c)) = p"
  proof (cases c)
    case (StringReceived payload)
    obtain msgs err where u: "unserialize (f_serializer (factory p)) payload = (msgs, err)"
      by (cases "unserialize (f_serializer (factory p)) payload")
    obtain r evs where f: "for_msg p msgs err = (r, evs, p)"
      using for_msg_closed [OF assms(1), of msgs err] by (cases "for_msg p msgs err") auto
    show ?thesis using StringReceived u f assms(1)
      by (cases r) (simp_all add: stringReceived_def ret_none_def abort_def isOpen_def Let_def)
  qed (use assms in \<open>simp_all add: ret_none_def connectionLost_def send_def close_def abort_def
        isOpen_def closed_same Let_def split: prod.splits option.splits\<close>)
  show "calls (fst (snd (step peer2str p c))) = []"
  proof (cases c)
    case (StringReceived payload)
    obtain msgs err where u: "unserialize (f_serializer (factory p)) payload = (msgs, err)"
      by (cases "unserialize (f_serializer (factory p)) payload")
    obtain r evs where f: "for_msg p msgs err = (r, evs, p)" and e: "calls evs = []"
      using for_msg_closed [OF assms(1), of msgs err] by (cases "for_msg p msgs err") auto
    show ?thesis using StringReceived u f e assms(1)
      by (cases r; cases "the r")
         (simp_all add: stringReceived_def ret_none_def abort_def isOpen_def Let_def calls_def log_msg_def)
  next
    case (ConnectionLost reason)
    then show ?thesis using assms(1)
      by (simp add: ret_none_def connectionLost_def connectionLost_try_def calls_def log_msg_def Let_def)
  qed (use assms in \<open>simp_all add: ret_none_def send_def close_def abort_def
        isOpen_def calls_def\<close>)
  show "needs_open c \<Longrightarrow> fst (step peer2str p c) = Inl TransportLost"
    using assms(1) by (cases c) (simp_all add: ret_none_def send_def close_def abort_def isOpen_def)
  show "c = IsOpen \<Longrightarrow> fst (step peer2str p c) = Inr (RBool False)"
    using assms(1) by (simp add: isOpen_def)
qed

lemma closed_run:
  assumes "session p = PyNone" "ConnectionMade \<notin> set cs"
  shows "fst (run peer2str p cs) = map (\<lambda>c. fst (step peer2str p c)) cs \<and>
         calls (fst (snd (run peer2str p cs))) = [] \<and>
         snd (snd (run peer2str p cs)) = p"
  using assms(2)
proof (induction cs)
  case Nil
  then show ?case by (simp add: calls_def)
next
  case (Cons c cs)
  have c: "c \<noteq> ConnectionMade" using Cons.prems by auto
  obtain r evs where s: "step peer2str p c = (r, evs, p)" and e: "calls evs = []"
    using closed_step(1,2) [OF assms(1) c, of peer2str] by (cases "step peer2str p c") auto
  obtain rs evs' where t: "run peer2str p cs = (rs, evs', p)"
    and rs: "rs = map (\<lambda>c. fst (step peer2str p c)) cs" and e': "calls evs' = []"
    using Cons by (cases "run peer2str p cs") auto
  have "run peer2str p (c # cs) = (r # rs, evs @ evs', p)"
    by (simp add: s t)
  moreover have "calls (evs @ evs') = []" using e e' by (simp add: calls_def)
  ultimately show ?case using rs s by simp
qed

text \<open>
  Claim C4, amended. Once \<open>connectionLost\<close> has run, the protocol stays closed through
  every further sequence of \<open>send\<close>, \<open>close\<close>, \<open>abort\<close>, \<open>isOpen\<close>,
  \<open>stringReceived\<close> and \<open>connectionLost\<close> calls: \<open>isOpen()\<close> returns false, every
  \<open>send\<close>, \<open>close\<close> and \<open>abort\<close> raises \<open>TransportLost\<close>, and no call reaches
  the session or the transport.
\<close>

theorem closed_is_terminal:
  assumes "ConnectionMade \<notin> set cs"
    and "run peer2str (snd (snd (connectionLost p reason))) cs = (rs, evs, p')"
  shows "isOpen p' = Inr False \<and> calls evs = [] \<and> length rs = length cs \<and>
         (\<forall>i < length cs. (needs_open (cs ! i) \<longrightarrow> rs ! i = Inl TransportLost) \<and>
                            (cs ! i = IsOpen \<longrightarrow> rs ! i = Inr (RBool False)))"
proof -
  let ?p0 = "snd (snd (connectionLost p reason))"
  have p0: "session ?p0 = PyNone"
    by (auto simp: connectionLost_def Let_def split: prod.splits option.splits)
  note r = closed_run [OF p0 assms(1), of peer2str]
  have rs: "rs = map (\<lambda>c. fst (step peer2str ?p0 c)) cs" and p': "p' = ?p0" and evs: "calls evs = []"
    using r unfolding assms(2) by simp_all
  have "\<forall>i < length cs. cs ! i \<noteq> ConnectionMade" using assms(1) by (metis nth_mem)
  then show ?thesis
    using closed_step(3,4) [OF p0, of _ peer2str] rs p' evs p0
    by (auto simp: isOpen_def)
qed

theorem closed_is_terminal_witness:
  "ConnectionMade \<notin> set [IsOpen, Send [1], Close, Abort, StringReceived [0], IsOpen] \<and>
   run id (snd (snd (connectionLost (ex_open False) (Failure ConnectionAborted))))
       [IsOpen, Send [1], Close, Abort, StringReceived [0], IsOpen]
     = ([Inr (RBool False), Inl TransportLost, Inl TransportLost, Inl TransportLost,
         Inl TransportLost, Inr (RBool False)], [], ex_closed) \<and>
   isOpen ex_closed = Inr False"
proof -
  have cs: "ConnectionMade \<notin> set [IsOpen, Send [1::8 word], Close, Abort, StringReceived [0], IsOpen]"
    by simp
  have r: "run id (snd (snd (connectionLost (ex_open False) (Failure ConnectionAborted))))
       [IsOpen, Send [1], Close, Abort, StringReceived [0], IsOpen]
     = ([Inr (RBool False), Inl TransportLost, Inl TransportLost, Inl TransportLost,
         Inl TransportLost, Inr (RBool False)], [], ex_closed)"
    by (simp add: connectionLost_def connectionLost_try_def log_msg_def ret_none_def isOpen_def
          send_def close_def abort_def stringReceived_def ex_defs)
  from closed_is_terminal [OF cs r] have "isOpen ex_closed = Inr False" by simp
  with cs r show ?thesis by simp
qed

subsection \<open>Connection establishment\<close>

text \<open>
  Claim C5, as stated, fails: when \<open>onOpen\<close> raises, \<open>self._session\<close> has been
  assigned already and \<open>abort()\<close> does not reset it, so after the failure the transport
  still counts as open (\<open>isOpen()\<close> is true) until \<open>connectionLost\<close> is delivered.
\<close>

theorem connectionMade_onOpen_raises_counterexample:
  "fst (onOpen ex_refusing_session (sstate ex_refusing_session)) = Some (OtherException ''not welcome'') \<and>
   isOpen (snd (snd (connectionMade id
      (buildProtocol ((ex_factory False)\<lparr>f_factory := Callable 0 (Inr ex_refusing_session)\<rparr>) ex_transport))))
     = Inr True"
  by (simp add: connectionMade_def buildProtocol_def abort_def isOpen_def log_msg_def ex_defs)

text \<open>
  Claim C5, amended. When the session constructor has returned a session,
  \<open>connectionMade\<close> calls \<open>onOpen\<close> and does not raise; if \<open>onOpen\<close> raises it
  calls \<open>abort()\<close> at once (\<open>abortConnection\<close> where the transport has it, otherwise
  \<open>loseConnection\<close>) and makes no \<open>onClose\<close> and no \<open>onMessage\<close> call; whether
  \<open>onOpen\<close> raised or not, the session is bound afterwards and \<open>isOpen()\<close> is true.
\<close>

theorem connectionMade_onOpen:
  assumes "call0 (f_factory (factory p)) = Inr s"
    and "onOpen s (sstate s) = (r, st)"
    and "connectionMade peer2str p = (res, evs, p')"
  shows "res = Inr () \<and>
         session p' = Obj (s\<lparr>sstate := st\<rparr>) \<and>
         isOpen p' = Inr True \<and>
         calls evs = [GetPeer, CallFactory, OnOpen] @ (case r of None \<Rightarrow> [] | Some e \<Rightarrow> [abort_call p])"
  using assms
  by (cases r)
     (auto simp: connectionMade_def abort_def isOpen_def log_msg_def calls_def abort_call_def Let_def
           split: option.splits)

theorem connectionMade_onOpen_witness:
  "call0 (Callable 0 (Inr ex_refusing_session)) = Inr ex_refusing_session \<and>
   onOpen ex_refusing_session (sstate ex_refusing_session) = (Some (OtherException ''not welcome''), 0) \<and>
   calls (fst (snd (connectionMade id
      (buildProtocol ((ex_factory True)\<lparr>f_factory := Callable 0 (Inr ex_refusing_session)\<rparr>) ex_transport))))
     = [GetPeer, CallFactory, OnOpen, AbortConnection]"
proof -
  let ?p = "buildProtocol ((ex_factory True)\<lparr>f_factory := Callable 0 (Inr ex_refusing_session)\<rparr>) ex_transport"
  have c: "call0 (f_factory (factory ?p)) = Inr ex_refusing_session"
    by (simp add: buildProtocol_def ex_factory_def)
  have o: "onOpen ex_refusing_session (sstate ex_refusing_session) = (Some (OtherException ''not welcome''), 0)"
    by (simp add: ex_refusing_session_def ex_session_def)
  obtain res evs p' where m: "connectionMade id ?p = (res, evs, p')"
    by (cases "connectionMade id ?p")
  have a: "abort_call ?p = AbortConnection"
    by (simp add: abort_call_def buildProtocol_def ex_transport_def)
  show ?thesis
    using connectionMade_onOpen [OF c o m] o a by (simp add: m)
qed

text \<open>
  When the constructor itself raises, \<open>_session\<close> has never been assigned: the
  \<open>abort()\<close> of the handler raises \<open>AttributeError\<close> in \<open>isOpen\<close>, the exception
  leaves \<open>connectionMade\<close>, and the transport is not asked to disconnect.
\<close>

lemma connectionMade_constructor_raises:
  assumes "call0 (f_factory (factory p)) = Inl e" and "session p = Unset"
  shows "fst (connectionMade peer2str p) = Inl (AttributeError ''_session'')"
    and "calls (fst (snd (connectionMade peer2str p))) = [GetPeer, CallFactory]"
    and "session (snd (snd (connectionMade peer2str p))) = Unset"
  using assms
  by (auto simp: connectionMade_def abort_def isOpen_def log_msg_def calls_def Let_def
           split: option.splits)

subsection \<open>Inbound payloads\<close>

lemma calls_append [simp]: "calls (xs @ ys) = calls xs @ calls ys"
  by (simp add: calls_def)

lemma calls_log_msg [simp]: "calls (log_msg d fmt a) = []"
  by (simp add: calls_def log_msg_def)

lemma calls_abort_log [simp]: "calls (abort_log d e) = []"
  by (cases e) simp_all

lemma forwarded_append [simp]: "forwarded (xs @ ys) = forwarded xs @ forwarded ys"
  by (induction xs rule: forwarded.induct) simp_all

lemma forwarded_log_msg [simp]: "forwarded (log_msg d fmt a) = []"
  by (simp add: log_msg_def)

lemma forwarded_abort_log [simp]: "forwarded (abort_log d e) = []"
  by (cases e) simp_all

lemma forwarded_map_OnMessage [simp]: "forwarded (map OnMessage ms) = ms"
  by (induction ms) simp_all

lemma calls_simps [simp]:
  "calls [] = []"
  "calls (OnMessage m # evs) = OnMessage m # calls evs"
  "calls (Log fmt a # evs) = calls evs"
  "calls (AbortConnection # evs) = AbortConnection # calls evs"
  "calls (LoseConnection # evs) = LoseConnection # calls evs"
  by (simp_all add: calls_def)





subsection \<open>The debug flag\<close>

lemma with_debug_simps [simp]:
  "session (with_debug d p) = session p"
  "transport (with_debug d p) = transport p"
  "peer (with_debug d p) = peer p"
  "f_factory (factory (with_debug d p)) = f_factory (factory p)"
  "f_serializer (factory (with_debug d p)) = f_serializer (factory p)"
  "debug (factory (with_debug d p)) = d"
  "with_debug d (with_debug d' p) = with_debug d p"
  "(with_debug d p)\<lparr>session := x\<rparr> = with_debug d (p\<lparr>session := x\<rparr>)"
  "(with_debug d p)\<lparr>peer := y\<rparr> = with_debug d (p\<lparr>peer := y\<rparr>)"
  by (simp_all add: with_debug_def)

lemma isOpen_with_debug [simp]: "isOpen (with_debug d p) = isOpen p"
  by (simp add: isOpen_def)

lemma observe_simp [simp]: "observe (r, evs, p) = (r, calls evs, with_debug False p)"
  by (simp add: observe_def)

lemma calls_Cons: "calls (e # evs) = (if is_Log e then calls evs else e # calls evs)"
  by (simp add: calls_def)















subsection \<open>Framing\<close>

lemma be32_arith:
  fixes n :: nat
  assumes "n < 4294967296"
  shows "n div 16777216 mod 256 * 16777216 + n div 65536 mod 256 * 65536
           + n div 256 mod 256 * 256 + n mod 256 = n"
proof -
  define a where "a = n div 256"
  define b where "b = a div 256"
  define c where "c = b div 256"
  have b: "n div 65536 = b"
    unfolding a_def b_def using div_mult2_eq [of n 256 256] by simp
  have c: "n div 16777216 = c"
    unfolding c_def b [symmetric] using div_mult2_eq [of n 65536 256] by simp
  have "c < 256" using assms unfolding c [symmetric] by simp
  then have c': "c mod 256 = c" by simp
  have n: "n = a * 256 + n mod 256" unfolding a_def by simp
  have a: "a = b * 256 + a mod 256" unfolding b_def by simp
  have b': "b = c * 256 + b mod 256" unfolding c_def by simp
  have "c * 16777216 + b mod 256 * 65536 + a mod 256 * 256 + n mod 256 = n"
    using n a b' by linarith
  then show ?thesis
    unfolding b c c' a_def [symmetric] .
qed


lemma be32_roundtrip: "n < 2 ^ 32 \<Longrightarrow> be32_decode (be32 n) = n"
  using be32_arith [of n] by (simp add: be32_def unat_of_nat)

lemma length_be32 [simp]: "length (be32 n) = 4"
  by (simp add: be32_def)

lemma length_encode [simp]: "length (encode p) = 4 + length p"
  by (simp add: encode_def)

lemma take4_encode [simp]: "take 4 (encode p) = be32 (length p)"
  by (simp add: encode_def)

lemma drop4_encode [simp]: "drop 4 (encode p) = p"
  by (simp add: encode_def)

lemma deframe_short:
  assumes "length buf < 4 \<or> length buf < 4 + be32_decode (take 4 buf)"
  shows "deframe buf = ([], buf)"
  using assms by (subst deframe.simps) (auto simp: Let_def)

lemma deframe_frame:
  assumes "4 \<le> length buf" and "be32_decode (take 4 buf) = n" and "4 + n \<le> length buf"
  shows "deframe buf = (take n (drop 4 buf) # fst (deframe (drop (4 + n) buf)),
                        snd (deframe (drop (4 + n) buf)))"
  using assms by (subst deframe.simps) (simp add: Let_def split: prod.splits)

lemma deframe_encode:
  assumes "length p < 2 ^ 32"
  shows "deframe (encode p @ rest) = (p # fst (deframe rest), snd (deframe rest))"
proof -
  have l: "4 \<le> length (encode p @ rest)" "4 + length p \<le> length (encode p @ rest)"
    by simp_all
  have d: "be32_decode (take 4 (encode p @ rest)) = length p"
    using be32_roundtrip [OF assms] by simp
  have r: "drop (4 + length p) (encode p @ rest) = rest"
    by (simp add: encode_def)
  have t: "take (length p) (drop 4 (encode p @ rest)) = p"
    by simp
  show ?thesis
    using deframe_frame [OF l(1) d l(2)] unfolding r t .
qed

lemma deframe_frames:
  assumes "\<forall>p \<in> set ps. length p < 2 ^ 32"
  shows "deframe (concat (map encode ps) @ rest) = (ps @ fst (deframe rest), snd (deframe rest))"
  using assms
proof (induction ps)
  case Nil
  show ?case by simp
next
  case (Cons p ps)
  then have "length p < 2 ^ 32" by simp
  from deframe_encode [OF this, of "concat (map encode ps) @ rest"] Cons
  show ?case by simp
qed

lemma deframe_partial:
  assumes "length q < 2 ^ 32" and "k < length (encode q)"
  shows "deframe (take k (encode q)) = ([], take k (encode q))"
proof (cases "k < 4")
  case True
  then have "length (take k (encode q)) < 4" by simp
  then show ?thesis by (intro deframe_short disjI1)
next
  case False
  then have "take 4 (take k (encode q)) = be32 (length q)"
    by (simp add: min_def)
  then have "be32_decode (take 4 (take k (encode q))) = length q"
    using be32_roundtrip [OF assms(1)] by simp
  moreover have "length (take k (encode q)) < 4 + length q"
    using assms(2) by simp
  ultimately have "length (take k (encode q)) < 4 + be32_decode (take 4 (take k (encode q)))"
    by (simp only:)
  then show ?thesis by (intro deframe_short disjI2)
qed

lemma deframe_residue: "deframe (snd (deframe a)) = ([], snd (deframe a))"
proof (induction a rule: deframe.induct)
  case (1 buf)
  show ?case
  proof (cases "length buf < 4 \<or> length buf < 4 + be32_decode (take 4 buf)")
    case True
    then have "deframe buf = ([], buf)" by (rule deframe_short)
    then show ?thesis by simp
  next
    case False
    then have "snd (deframe buf) = snd (deframe (drop (4 + be32_decode (take 4 buf)) buf))"
      using deframe_frame [of buf "be32_decode (take 4 buf)"] by simp
    with 1 False show ?thesis by simp
  qed
qed

lemma deframe_append:
  "deframe (a @ b) = (fst (deframe a) @ fst (deframe (snd (deframe a) @ b)),
                      snd (deframe (snd (deframe a) @ b)))"
proof (induction a rule: deframe.induct)
  case (1 buf)
  show ?case
  proof (cases "length buf < 4 \<or> length buf < 4 + be32_decode (take 4 buf)")
    case True
    then have "deframe buf = ([], buf)" by (rule deframe_short)
    then show ?thesis by simp
  next
    case False
    let ?n = "be32_decode (take 4 buf)"
    let ?r = "drop (4 + ?n) buf"
    from False have l: "4 \<le> length buf" "4 + ?n \<le> length buf" by simp_all
    have d: "deframe buf = (take ?n (drop 4 buf) # fst (deframe ?r), snd (deframe ?r))"
      using l by (simp add: deframe_frame)
    have t: "be32_decode (take 4 (buf @ b)) = ?n" using l by simp
    have l': "4 \<le> length (buf @ b)" "4 + ?n \<le> length (buf @ b)" using l by simp_all
    have e: "take ?n (drop 4 (buf @ b)) = take ?n (drop 4 buf)" "drop (4 + ?n) (buf @ b) = ?r @ b"
      using l by simp_all
    have "deframe (buf @ b) = (take ?n (drop 4 buf) # fst (deframe (?r @ b)), snd (deframe (?r @ b)))"
      using deframe_frame [OF l'(1) t l'(2)] unfolding e .
    moreover have "deframe (?r @ b)
        = (fst (deframe ?r) @ fst (deframe (snd (deframe ?r) @ b)),
           snd (deframe (snd (deframe ?r) @ b)))"
      using 1 False by simp
    ultimately show ?thesis by (simp add: d)
  qed
qed

lemma feed_all_deframe:
  assumes "deframe buf = ([], buf)"
  shows "feed_all buf chunks = deframe (buf @ concat chunks)"
  using assms
proof (induction chunks arbitrary: buf)
  case Nil
  then show ?case by simp
next
  case (Cons d chunks)
  obtain ps b where f: "deframe (buf @ d) = (ps, b)" by (cases "deframe (buf @ d)")
  have "deframe b = ([], b)" using deframe_residue [of "buf @ d"] f by simp
  then have ih: "feed_all b chunks = deframe (b @ concat chunks)" by (rule Cons.IH)
  obtain qs b' where g: "deframe (b @ concat chunks) = (qs, b')"
    by (cases "deframe (b @ concat chunks)")
  have "deframe ((buf @ d) @ concat chunks) = (ps @ qs, b')"
    using deframe_append [of "buf @ d" "concat chunks"] f g by simp
  then show ?case
    by (simp add: feed_def f ih g)
qed

text \<open>
  Claim C7. A frame is the 4-byte big-endian length of the payload followed by the payload
  (for a payload shorter than \<open>2 ^ 32\<close> bytes the length field reads back as the
  payload's length). However the bytes of a sequence of frames, followed by an incomplete
  frame, are cut into reads, the codec delivers exactly the payloads of the complete frames,
  in the order of the bytes, and keeps the bytes of the incomplete frame in its buffer
  without delivering any of them.
\<close>

theorem frame_codec:
  assumes "\<forall>p \<in> set (q # ps). length p < 2 ^ 32"
    and "concat chunks = concat (map encode ps) @ take k (encode q)"
    and "k < length (encode q)"
  shows "feed_all [] chunks = (ps, take k (encode q)) \<and>
         (\<forall>p \<in> set (q # ps). encode p = be32 (length p) @ p \<and> length (be32 (length p)) = 4 \<and>
                                 be32_decode (be32 (length p)) = length p)"
proof -
  have "deframe [] = ([], [])" by (simp add: deframe_short)
  then have "feed_all [] chunks = deframe (concat chunks)"
    using feed_all_deframe [of "[]" chunks] by simp
  also have "\<dots> = (ps @ fst (deframe (take k (encode q))), snd (deframe (take k (encode q))))"
    unfolding assms(2) using assms(1) by (intro deframe_frames) simp
  also have "deframe (take k (encode q)) = ([], take k (encode q))"
    using assms(1,3) by (intro deframe_partial) simp_all
  finally have "feed_all [] chunks = (ps, take k (encode q))" by simp
  moreover have "\<forall>p \<in> set (q # ps). encode p = be32 (length p) @ p \<and> length (be32 (length p)) = 4 \<and>
                                 be32_decode (be32 (length p)) = length p"
    using assms(1) by (auto simp: encode_def be32_roundtrip)
  ultimately show ?thesis by simp
qed

text \<open>
  The two scenarios of the spec: \<open>abc\<close> sent in two writes is delivered after the
  second and not after the first; two frames in one write are delivered in order.
\<close>

theorem frame_codec_witness:
  "feed_all [] [[0, 0, 0, 3, 97], [98, 99]] = ([[97, 98, 99]], []) \<and>
   feed_all [] [[0, 0, 0, 3, 97]] = ([], [0, 0, 0, 3, 97]) \<and>
   feed_all [] [[0, 0, 0, 1, 120, 0, 0, 0, 1, 121]] = ([[120], [121]], [])"
proof -
  have e: "encode [97, 98, 99] = [0, 0, 0, 3, 97, 98, 99]" "encode [120] = [0, 0, 0, 1, 120]"
    "encode [121] = [0, 0, 0, 1, 121]" "encode [] = [0, 0, 0, 0]"
    by (simp_all add: encode_def be32_def)
  have "feed_all [] [[0, 0, 0, 3, 97], [98, 99]] = ([[97, 98, 99]], take 0 (encode []))"
    using frame_codec [of "[]" "[[97, 98, 99]]" "[[0, 0, 0, 3, 97], [98, 99]]" 0]
    by (simp add: e)
  moreover have "feed_all [] [[0, 0, 0, 3, 97]] = ([], take 5 (encode [97, 98, 99]))"
    using frame_codec [of "[97, 98, 99]" "[]" "[[0, 0, 0, 3, 97]]" 5]
    by (simp add: e)
  moreover have "feed_all [] [[0, 0, 0, 1, 120, 0, 0, 0, 1, 121]] = ([[120], [121]], take 0 (encode []))"
    using frame_codec [of "[]" "[[120], [121]]" "[[0, 0, 0, 1, 120, 0, 0, 0, 1, 121]]" 0]
    by (simp add: e)
  ultimately show ?thesis by (simp add: e)
qed

subsection \<open>Delivery of valid frames\<close>

lemma deliver_for_msg:
  assumes "session p = Obj s" and "deliver s ms = Some s'"
  shows "\<exists>evs. for_msg p ms err = (err, evs, p\<lparr>session := Obj s'\<rparr>) \<and> calls evs = map OnMessage ms"
  using assms
proof (induction ms arbitrary: p s)
  case Nil
  then have "p\<lparr>session := Obj s'\<rparr> = p" by (cases p) simp
  then show ?case by simp
next
  case (Cons m ms)
  obtain x st where om: "onMessage s m (sstate s) = (x, st)"
    by (cases "onMessage s m (sstate s)")
  with Cons.prems(2) have x: "x = None" and d: "deliver (s\<lparr>sstate := st\<rparr>) ms = Some s'"
    by (cases x, simp_all)+
  let ?q = "p\<lparr>session := Obj (s\<lparr>sstate := st\<rparr>)\<rparr>"
  have "session ?q = Obj (s\<lparr>sstate := st\<rparr>)" by simp
  from Cons.IH [OF this d] obtain evs where
    f: "for_msg ?q ms err = (err, evs, ?q\<lparr>session := Obj s'\<rparr>)" and c: "calls evs = map OnMessage ms"
    by blast
  have "?q\<lparr>session := Obj s'\<rparr> = p\<lparr>session := Obj s'\<rparr>" by simp
  with f have "for_msg p (m # ms) err
      = (err, log_msg (debug (factory p)) ''RX WAMP message: {0}'' (ArgMsg m) @ [OnMessage m] @ evs,
         p\<lparr>session := Obj s'\<rparr>)"
    using Cons.prems(1) om x by (simp add: Let_def)
  then show ?case using c by simp
qed

lemma stringReceived_ok:
  assumes "session p = Obj s"
    and "unserialize (f_serializer (factory p)) payload = (ms, None)"
    and "deliver s ms = Some s'"
  shows "\<exists>evs. stringReceived p payload = (Inr (), evs, p\<lparr>session := Obj s'\<rparr>) \<and>
               calls evs = map OnMessage ms"
proof -
  from deliver_for_msg [OF assms(1,3), of None] obtain evs where
    f: "for_msg p ms None = (None, evs, p\<lparr>session := Obj s'\<rparr>)" and c: "calls evs = map OnMessage ms"
    by blast
  have "stringReceived p payload
          = (Inr (), log_msg (debug (factory p)) ''RX octets: {0}'' (ArgHex payload) @ evs,
             p\<lparr>session := Obj s'\<rparr>)"
    by (simp add: stringReceived_def assms(2) f Let_def)
  then show ?thesis using c by simp
qed

lemma deliver_append:
  "deliver s (xs @ ys) = (case deliver s xs of None \<Rightarrow> None | Some s' \<Rightarrow> deliver s' ys)"
proof (induction xs arbitrary: s)
  case Nil
  show ?case by simp
next
  case (Cons x xs)
  obtain r st where "onMessage s x (sstate s) = (r, st)" by (cases "onMessage s x (sstate s)")
  then show ?case using Cons by (cases r) simp_all
qed

lemma stringsReceived_ok:
  assumes "session p = Obj s"
    and "\<forall>pl \<in> set pls. snd (unserialize (f_serializer (factory p)) pl) = None"
    and "deliver s (concat (map (\<lambda>pl. fst (unserialize (f_serializer (factory p)) pl)) pls)) = Some s'"
  shows "\<exists>evs. stringsReceived p pls = (Inr (), evs, p\<lparr>session := Obj s'\<rparr>) \<and>
               calls evs = map OnMessage
                 (concat (map (\<lambda>pl. fst (unserialize (f_serializer (factory p)) pl)) pls))"
  using assms
proof (induction pls arbitrary: p s)
  case Nil
  then have "p\<lparr>session := Obj s'\<rparr> = p" by (cases p) simp
  then show ?case by simp
next
  case (Cons pl pls)
  let ?u = "\<lambda>pl. fst (unserialize (f_serializer (factory p)) pl)"
  have u: "unserialize (f_serializer (factory p)) pl = (?u pl, None)"
    using Cons.prems(2) by (cases "unserialize (f_serializer (factory p)) pl") simp
  from Cons.prems(3) obtain s1 where d1: "deliver s (?u pl) = Some s1"
    and d2: "deliver s1 (concat (map ?u pls)) = Some s'"
    by (auto simp: deliver_append split: option.splits)
  from stringReceived_ok [OF Cons.prems(1) u d1] obtain evs1 where
    r1: "stringReceived p pl = (Inr (), evs1, p\<lparr>session := Obj s1\<rparr>)"
    and c1: "calls evs1 = map OnMessage (?u pl)" by blast
  let ?q = "p\<lparr>session := Obj s1\<rparr>"
  have q: "session ?q = Obj s1" "factory ?q = factory p" by simp_all
  have "\<exists>evs. stringsReceived ?q pls = (Inr (), evs, ?q\<lparr>session := Obj s'\<rparr>) \<and>
               calls evs = map OnMessage (concat (map (\<lambda>pl. fst (unserialize (f_serializer (factory ?q)) pl)) pls))"
    by (rule Cons.IH [OF q(1)]) (use Cons.prems(2) d2 in \<open>simp_all\<close>)
  then obtain evs2 where
    r2: "stringsReceived ?q pls = (Inr (), evs2, p\<lparr>session := Obj s'\<rparr>)"
    and c2: "calls evs2 = map OnMessage (concat (map ?u pls))" by auto
  have "stringsReceived p (pl # pls) = (Inr (), evs1 @ evs2, p\<lparr>session := Obj s'\<rparr>)"
    by (simp add: r1 r2)
  then show ?case using c1 c2 by simp
qed

text \<open>
  Claim C1. On a protocol with a bound session, for frames whose payloads all decode and
  whose messages the session takes without raising: however the bytes of the frames are cut
  into reads, the payloads delivered to \<open>stringReceived\<close> are the payloads of the
  frames, no call raises, and the messages forwarded to \<open>onMessage\<close> are exactly the
  messages that \<open>unserialize\<close> yields for each payload, payload after payload, in
  order, none twice and none dropped; no other call is made on the session or the transport.
\<close>

theorem messages_forwarded_in_order:
  assumes "session p = Obj s"
    and "\<forall>pl \<in> set payloads. length pl < 2 ^ 32 \<and>
           snd (unserialize (f_serializer (factory p)) pl) = None"
    and "deliver s (concat (map (\<lambda>pl. fst (unserialize (f_serializer (factory p)) pl)) payloads)) = Some s'"
    and "concat chunks = concat (map encode payloads)"
  shows "fst (feed_all [] chunks) = payloads \<and>
         fst (stringsReceived p (fst (feed_all [] chunks))) = Inr () \<and>
         forwarded (fst (snd (stringsReceived p (fst (feed_all [] chunks)))))
           = concat (map (\<lambda>pl. fst (unserialize (f_serializer (factory p)) pl)) payloads) \<and>
         calls (fst (snd (stringsReceived p (fst (feed_all [] chunks)))))
           = map OnMessage (concat (map (\<lambda>pl. fst (unserialize (f_serializer (factory p)) pl)) payloads))"
proof -
  have "deframe [] = ([], [])" by (simp add: deframe_short)
  then have "feed_all [] chunks = deframe (concat (map encode payloads) @ [])"
    using feed_all_deframe [of "[]" chunks] assms(4) by simp
  also have "\<dots> = (payloads @ fst (deframe []), snd (deframe []))"
    using assms(2) by (intro deframe_frames) simp
  finally have f: "fst (feed_all [] chunks) = payloads"
    by (simp add: deframe_short)
  from stringsReceived_ok [OF assms(1) _ assms(3)] assms(2) obtain evs where
    r: "stringsReceived p payloads = (Inr (), evs, p\<lparr>session := Obj s'\<rparr>)"
    and c: "calls evs = map OnMessage
        (concat (map (\<lambda>pl. fst (unserialize (f_serializer (factory p)) pl)) payloads))"
    by auto
  have "forwarded evs = forwarded (calls evs)"
    by (induction evs rule: forwarded.induct) (simp_all add: calls_Cons)
  then show ?thesis using f r c by simp
qed

theorem messages_forwarded_in_order_witness:
  "session (ex_open True) = Obj ex_session \<and>
   concat [[0, 0, 0, 1, 1, 0], [0, 0, 2, 2], [3]] = concat (map encode [[1], [2, 3]]) \<and>
   fst (feed_all [] [[0, 0, 0, 1, 1, 0], [0, 0, 2, 2], [3]]) = [[1], [2, 3]] \<and>
   forwarded (fst (snd (stringsReceived (ex_open True)
      (fst (feed_all [] [[0, 0, 0, 1, 1, 0], [0, 0, 2, 2], [3]]))))) = [[1], [2, 3]]"
proof -
  have s: "session (ex_open True) = Obj ex_session" by (simp add: ex_defs)
  have u: "\<forall>pl \<in> set [[1], [2, 3 :: 8 word]]. length pl < 2 ^ 32 \<and>
             snd (unserialize (f_serializer (factory (ex_open True))) pl) = None"
    by (simp add: ex_defs)
  have d: "deliver ex_session (concat (map (\<lambda>pl. fst (unserialize (f_serializer (factory (ex_open True))) pl))
             [[1], [2, 3]])) = Some (ex_session\<lparr>sstate := 2\<rparr>)"
    by (simp add: ex_defs)
  have c: "concat [[0, 0, 0, 1, 1, 0], [0, 0, 2, 2], [3 :: 8 word]] = concat (map encode [[1], [2, 3]])"
    by (simp add: encode_def be32_def)
  have m: "concat (map (\<lambda>pl. fst (unserialize (f_serializer (factory (ex_open True))) pl))
             [[1], [2, 3]]) = [[1], [2, 3]]"
    by (simp add: ex_defs)
  note t = messages_forwarded_in_order [OF s u d c, unfolded m]
  from t have "fst (feed_all [] [[0, 0, 0, 1, 1, 0], [0, 0, 2, 2], [3]]) = [[1], [2, 3]]"
    by (rule conjunct1)
  moreover from t have "forwarded (fst (snd (stringsReceived (ex_open True)
      (fst (feed_all [] [[0, 0, 0, 1, 1, 0], [0, 0, 2, 2], [3]]))))) = [[1], [2, 3]]"
    by (rule conjunct1 [OF conjunct2 [OF conjunct2]])
  ultimately show ?thesis using s c by (intro conjI)
qed

end
